theory Spec2Isabelle
  imports Main "HOL-Library.Multiset"
begin

section \<open>Data model\<close>

text \<open>
  The repository ships the league API twice: a flat-file server that keeps one JSON
  document \<^verbatim>\<open>{leagues, players, memberships, scores}\<close> (loadDB/saveDB), and a
  service-backed server (\<^verbatim>\<open>server.js\<close>) that sends the same reads and writes to a hosted
  database. Identifiers and dates are strings, and no identifier is the name of a member
  every JavaScript object inherits (\<^verbatim>\<open>constructor\<close>, \<^verbatim>\<open>toString\<close>, ...), so that
  \<^verbatim>\<open>db.players[uuid]\<close> and \<^verbatim>\<open>db.leagues[id]\<close> are lookups in a map. A timestamp is
  the clock reading behind \<^verbatim>\<open>new Date().toISOString()\<close>, one per request; its text is
  never empty, hence always truthy. The \<^verbatim>\<open>mistakes\<close> value of a score is whatever the
  request body carried (the handlers never inspect it), so score rows are polymorphic in
  it; the leaderboard reads it as a number or \<^verbatim>\<open>null\<close>.
\<close>

type_synonym timestamp = nat

record league =
  l_id :: string
  l_name :: string
  l_createdAt :: timestamp

record player =
  p_uuid :: string
  p_displayName :: string
  p_createdAt :: timestamp

record membership =
  m_playerUuid :: string
  m_leagueId :: string
  m_joinedAt :: timestamp

record 'm score =
  s_playerUuid :: string
  s_leagueId :: string
  s_date :: string
  s_mistakes :: 'm
  s_recordedAt :: timestamp

record 'm db =
  leagues :: "string \<rightharpoonup> league"
  players :: "string \<rightharpoonup> player"
  memberships :: "membership list"
  scores :: "'m score list"

text \<open>What loadDB returns when there is no data file yet.\<close>

definition emptyDB :: "'m db" where
  "emptyDB = \<lparr>leagues = Map.empty, players = Map.empty, memberships = [], scores = []\<rparr>"

datatype error = ValidationError | NotFound | StoreUnavailable

section \<open>Leaderboard: entries, comparator, sort, ranks\<close>

text \<open>
  A leaderboard entry before ranking (\<^verbatim>\<open>{uuid, display_name, mistakes, date}\<close>, with
  \<^verbatim>\<open>null\<close> as \<open>None\<close>) and after (\<^verbatim>\<open>{...member, rank}\<close>).
\<close>

record entry =
  e_uuid :: string
  e_display_name :: string
  e_mistakes :: "int option"
  e_date :: "string option"

record ranked =
  r_uuid :: string
  r_display_name :: string
  r_mistakes :: "int option"
  r_date :: "string option"
  r_rank :: "int option"

definition with_rank :: "entry \<Rightarrow> int option \<Rightarrow> ranked" where
  "with_rank member rank =
     \<lparr>r_uuid = e_uuid member, r_display_name = e_display_name member,
      r_mistakes = e_mistakes member, r_date = e_date member, r_rank = rank\<rparr>"

text \<open>
  The comparator handed to \<^verbatim>\<open>members.sort\<close>, the same in both servers.
  \<^verbatim>\<open>String.prototype.localeCompare\<close> belongs to the runtime, so it is a parameter.
\<close>

definition compare_members :: "(string \<Rightarrow> string \<Rightarrow> int) \<Rightarrow> entry \<Rightarrow> entry \<Rightarrow> int" where
  "compare_members localeCompare a b =
     (case e_mistakes a of
        Some x \<Rightarrow> (case e_mistakes b of Some y \<Rightarrow> x - y | None \<Rightarrow> - 1)
      | None \<Rightarrow> (case e_mistakes b of Some y \<Rightarrow> 1
                 | None \<Rightarrow> localeCompare (e_display_name a) (e_display_name b)))"

text \<open>
  \<^verbatim>\<open>Array.prototype.sort\<close> is a stable sort. For a consistent comparator its result is
  the one stable sorted arrangement, computed here by insertion from the right: an
  element goes in front of the first element it does not compare greater than.
\<close>

fun insert_sorted :: "('a \<Rightarrow> 'a \<Rightarrow> int) \<Rightarrow> 'a \<Rightarrow> 'a list \<Rightarrow> 'a list" where
  "insert_sorted cmp x [] = [x]"
| "insert_sorted cmp x (y # ys) =
     (if cmp x y \<le> 0 then x # y # ys else y # insert_sorted cmp x ys)"

definition array_sort :: "('a \<Rightarrow> 'a \<Rightarrow> int) \<Rightarrow> 'a list \<Rightarrow> 'a list" where
  "array_sort cmp xs = foldr (insert_sorted cmp) xs []"

definition sort_members :: "(string \<Rightarrow> string \<Rightarrow> int) \<Rightarrow> entry list \<Rightarrow> entry list" where
  "sort_members localeCompare members = array_sort (compare_members localeCompare) members"

text \<open>
  Rank assignment of the service-backed server: the \<^verbatim>\<open>map\<close> callback with its three
  closure variables currentRank, lastMistakes and playedCount.
\<close>

fun rank_loop :: "int \<Rightarrow> int option \<Rightarrow> int \<Rightarrow> entry list \<Rightarrow> ranked list" where
  "rank_loop currentRank lastMistakes playedCount [] = []"
| "rank_loop currentRank lastMistakes playedCount (member # rest) =
     (case e_mistakes member of
        Some v \<Rightarrow>
          (if Some v \<noteq> lastMistakes
           then with_rank member (Some (playedCount + 1))
                  # rank_loop (playedCount + 1) (Some v) (playedCount + 1) rest
           else with_rank member (Some currentRank)
                  # rank_loop currentRank lastMistakes (playedCount + 1) rest)
      | None \<Rightarrow> with_rank member None # rank_loop currentRank lastMistakes playedCount rest)"

definition assign_ranks :: "entry list \<Rightarrow> ranked list" where
  "assign_ranks members = rank_loop 0 None 0 members"

text \<open>
  Rank assignment of the flat-file server: no played counter; a new rank is
  \<^verbatim>\<open>index + 1 - members.slice(0, index).filter(m => m.mistakes === null).length\<close>.
\<close>

fun rank_loop_flat :: "entry list \<Rightarrow> nat \<Rightarrow> int \<Rightarrow> int option \<Rightarrow> entry list \<Rightarrow> ranked list" where
  "rank_loop_flat members index currentRank lastMistakes [] = []"
| "rank_loop_flat members index currentRank lastMistakes (member # rest) =
     (case e_mistakes member of
        Some v \<Rightarrow>
          (if Some v \<noteq> lastMistakes
           then (let currentRank' = int index + 1
                        - int (length (filter (\<lambda>m. e_mistakes m = None) (take index members)))
                 in with_rank member (Some currentRank')
                      # rank_loop_flat members (index + 1) currentRank' (Some v) rest)
           else with_rank member (Some currentRank)
                  # rank_loop_flat members (index + 1) currentRank lastMistakes rest)
      | None \<Rightarrow> with_rank member None
                  # rank_loop_flat members (index + 1) currentRank lastMistakes rest)"

definition assign_ranks_flat :: "entry list \<Rightarrow> ranked list" where
  "assign_ranks_flat members = rank_loop_flat members 0 0 None members"


section \<open>Request values\<close>

text \<open>
  A field of a request body or query string is \<open>None\<close> when it is missing
  (\<^verbatim>\<open>undefined\<close>). \<^verbatim>\<open>!v\<close> holds of a missing and of an empty string.
  \<^verbatim>\<open>trim\<close> removes white space at both ends (the white space of ASCII: strings are
  lists of bytes here).
\<close>

definition is_falsy :: "string option \<Rightarrow> bool" where
  "is_falsy v = (v = None \<or> v = Some [])"

definition is_space :: "char \<Rightarrow> bool" where
  "is_space c = (c \<in> set [CHR '' '', CHR 0x09, CHR 0x0A, CHR 0x0B, CHR 0x0C, CHR 0x0D])"

definition trim :: "string \<Rightarrow> string" where
  "trim s = rev (dropWhile is_space (rev (dropWhile is_space s)))"

text \<open>\<^verbatim>\<open>Array.prototype.findIndex\<close>: the first index that satisfies the test, or -1.\<close>

fun findIndex :: "('a \<Rightarrow> bool) \<Rightarrow> 'a list \<Rightarrow> int" where
  "findIndex P [] = - 1"
| "findIndex P (x # xs) =
     (if P x then 0 else (let i = findIndex P xs in if i < 0 then - 1 else i + 1))"

section \<open>The flat-file server\<close>

text \<open>
  Each handler takes the clock reading \<open>now\<close> and the database as loaded, and returns
  its response with the database as saved (unchanged when the handler answers before
  saveDB). The store itself is taken reliable.
\<close>

subsection \<open>POST /api/leagues\<close>

text \<open>The id is \<^verbatim>\<open>uuidv4().slice(0, 8)\<close>, drawn by the runtime: a parameter.\<close>

definition createLeague ::
  "timestamp \<Rightarrow> string \<Rightarrow> string option \<Rightarrow> 'm db \<Rightarrow> (error + league) \<times> 'm db" where
  "createLeague now id' name db =
     (if is_falsy name \<or> trim (the name) = [] then (Inl ValidationError, db)
      else (let l = \<lparr>l_id = id', l_name = trim (the name), l_createdAt = now\<rparr>
            in (Inr l, db\<lparr>leagues := (leagues db)(id' \<mapsto> l)\<rparr>)))"

subsection \<open>POST /api/leagues/:id/join\<close>

text \<open>
  The player upsert of the join handler. \<^verbatim>\<open>db.players[uuid]?.createdAt || now\<close>: a
  stored timestamp is truthy, so the clock is taken only for a new player.
\<close>

definition upsertPlayer_join :: "timestamp \<Rightarrow> string \<Rightarrow> string \<Rightarrow> 'm db \<Rightarrow> 'm db" where
  "upsertPlayer_join now uuid displayName db =
     db\<lparr>players := (players db)(uuid \<mapsto>
        \<lparr>p_uuid = uuid, p_displayName = trim displayName,
         p_createdAt = (case players db uuid of Some p \<Rightarrow> p_createdAt p | None \<Rightarrow> now)\<rparr>)\<rparr>"

text \<open>The membership step of the join handler: push unless the pair is found.\<close>

definition addMembership :: "timestamp \<Rightarrow> string \<Rightarrow> string \<Rightarrow> 'm db \<Rightarrow> 'm db" where
  "addMembership now uuid id' db =
     (case find (\<lambda>m. m_playerUuid m = uuid \<and> m_leagueId m = id') (memberships db) of
        Some existingMembership \<Rightarrow> db
      | None \<Rightarrow> db\<lparr>memberships := memberships db @
          [\<lparr>m_playerUuid = uuid, m_leagueId = id', m_joinedAt = now\<rparr>]\<rparr>)"

definition joinLeague ::
  "timestamp \<Rightarrow> string \<Rightarrow> string option \<Rightarrow> string option \<Rightarrow> 'm db \<Rightarrow> (error + league) \<times> 'm db" where
  "joinLeague now id' uuid displayName db =
     (if is_falsy uuid \<or> is_falsy displayName \<or> trim (the displayName) = []
      then (Inl ValidationError, db)
      else (case leagues db id' of
              None \<Rightarrow> (Inl NotFound, db)
            | Some l \<Rightarrow>
                (Inr l, addMembership now (the uuid) id'
                          (upsertPlayer_join now (the uuid) (the displayName) db))))"

subsection \<open>PUT /api/player/:uuid\<close>

definition upsertPlayer_put :: "timestamp \<Rightarrow> string \<Rightarrow> string \<Rightarrow> 'm db \<Rightarrow> 'm db" where
  "upsertPlayer_put now uuid displayName db =
     (case players db uuid of
        None \<Rightarrow> db\<lparr>players := (players db)(uuid \<mapsto>
          \<lparr>p_uuid = uuid, p_displayName = trim displayName, p_createdAt = now\<rparr>)\<rparr>
      | Some p \<Rightarrow> db\<lparr>players := (players db)(uuid \<mapsto> p\<lparr>p_displayName := trim displayName\<rparr>)\<rparr>)"

definition updatePlayer ::
  "timestamp \<Rightarrow> string \<Rightarrow> string option \<Rightarrow> 'm db \<Rightarrow> (error + unit) \<times> 'm db" where
  "updatePlayer now uuid displayName db =
     (if is_falsy displayName \<or> trim (the displayName) = [] then (Inl ValidationError, db)
      else (Inr (), upsertPlayer_put now uuid (the displayName) db))"

subsection \<open>POST /api/scores\<close>

text \<open>One pass of the loop body: update the row found by findIndex, or push a new one.\<close>

definition upsertScore ::
  "timestamp \<Rightarrow> string \<Rightarrow> string \<Rightarrow> string \<Rightarrow> 'm \<Rightarrow> 'm score list \<Rightarrow> 'm score list" where
  "upsertScore now uuid leagueId date mistakes rows =
     (let existingIndex = findIndex
            (\<lambda>s. s_playerUuid s = uuid \<and> s_leagueId s = leagueId \<and> s_date s = date) rows
      in if existingIndex \<ge> 0
         then rows[nat existingIndex :=
                (rows ! nat existingIndex)\<lparr>s_mistakes := mistakes, s_recordedAt := now\<rparr>]
         else rows @ [\<lparr>s_playerUuid = uuid, s_leagueId = leagueId, s_date = date,
                        s_mistakes = mistakes, s_recordedAt = now\<rparr>])"

fun fanout ::
  "timestamp \<Rightarrow> string \<Rightarrow> string \<Rightarrow> 'm \<Rightarrow> string list \<Rightarrow> 'm score list \<times> nat
     \<Rightarrow> 'm score list \<times> nat" where
  "fanout now uuid date mistakes [] (rows, recorded) = (rows, recorded)"
| "fanout now uuid date mistakes (leagueId # rest) (rows, recorded) =
     fanout now uuid date mistakes rest
       (upsertScore now uuid leagueId date mistakes rows, recorded + 1)"

text \<open>The whole guard of the handler: \<^verbatim>\<open>!uuid || !date || mistakes === undefined\<close>.\<close>

definition score_request_rejected :: "string option \<Rightarrow> string option \<Rightarrow> 'm option \<Rightarrow> bool" where
  "score_request_rejected uuid date mistakes =
     (is_falsy uuid \<or> is_falsy date \<or> mistakes = None)"

definition submitScore ::
  "timestamp \<Rightarrow> string option \<Rightarrow> string option \<Rightarrow> 'm option \<Rightarrow> 'm db \<Rightarrow> (error + nat) \<times> 'm db" where
  "submitScore now uuid date mistakes db =
     (if score_request_rejected uuid date mistakes then (Inl ValidationError, db)
      else (let playerLeagues =
                  map m_leagueId (filter (\<lambda>m. m_playerUuid m = the uuid) (memberships db))
            in if playerLeagues = [] then (Inr 0, db)
               else (let (rows, recorded) =
                           fanout now (the uuid) (the date) (the mistakes) playerLeagues (scores db, 0)
                     in (Inr recorded, db\<lparr>scores := rows\<rparr>))))"

subsection \<open>GET /api/player/:uuid/leagues\<close>




subsection \<open>GET /api/leagues/:id/leaderboard\<close>

text \<open>
  A stored \<^verbatim>\<open>mistakes\<close> is a number or \<^verbatim>\<open>null\<close> here (\<open>int option\<close>); the
  join reads \<^verbatim>\<open>score?.mistakes ?? null\<close> and \<^verbatim>\<open>player?.displayName || 'Unknown'\<close>.
\<close>

definition name_or_unknown :: "string option \<Rightarrow> string" where
  "name_or_unknown n = (if is_falsy n then ''Unknown'' else the n)"

definition build_members :: "int option db \<Rightarrow> string \<Rightarrow> string \<Rightarrow> entry list" where
  "build_members db id' date =
     (let memberUuids = map m_playerUuid (filter (\<lambda>m. m_leagueId m = id') (memberships db));
          dateScores = filter (\<lambda>s. s_leagueId s = id' \<and> s_date s = date) (scores db)
      in map (\<lambda>uuid.
            (let p = players db uuid;
                 score = find (\<lambda>s. s_playerUuid s = uuid) dateScores
             in \<lparr>e_uuid = uuid,
                 e_display_name = name_or_unknown (map_option p_displayName p),
                 e_mistakes = Option.bind score s_mistakes,
                 e_date = map_option s_date score\<rparr>)) memberUuids)"

record leaderboard_response =
  lr_league :: league
  lr_date :: string
  lr_leaderboard :: "ranked list"

definition computeLeaderboard ::
  "(string \<Rightarrow> string \<Rightarrow> int) \<Rightarrow> string \<Rightarrow> string \<Rightarrow> string option \<Rightarrow> int option db
     \<Rightarrow> error + leaderboard_response" where
  "computeLeaderboard localeCompare today id' queryDate db =
     (let date = (if is_falsy queryDate then today else the queryDate)
      in case leagues db id' of
           None \<Rightarrow> Inl NotFound
         | Some l \<Rightarrow> Inr
             \<lparr>lr_league = l, lr_date = date,
              lr_leaderboard =
                assign_ranks_flat (sort_members localeCompare (build_members db id' date))\<rparr>)"

subsection \<open>Request histories\<close>

text \<open>The state-changing requests, and the database they leave, starting with no data file.\<close>

datatype 'm request =
    CreateLeague string "string option"
  | JoinLeague string "string option" "string option"
  | SubmitScore "string option" "string option" "'m option"
  | UpdatePlayer string "string option"

fun step :: "'m db \<Rightarrow> timestamp \<times> 'm request \<Rightarrow> 'm db" where
  "step db (now, CreateLeague id' name) = snd (createLeague now id' name db)"
| "step db (now, JoinLeague id' uuid displayName) = snd (joinLeague now id' uuid displayName db)"
| "step db (now, SubmitScore uuid date mistakes) = snd (submitScore now uuid date mistakes db)"
| "step db (now, UpdatePlayer uuid displayName) = snd (updatePlayer now uuid displayName db)"

definition run :: "(timestamp \<times> 'm request) list \<Rightarrow> 'm db" where
  "run reqs = foldl step emptyDB reqs"

section \<open>The service-backed server\<close>

text \<open>
  \<^verbatim>\<open>server.js\<close> keeps no state of its own: every handler is a function of what its
  queries returned. A query result is \<open>None\<close> when the client hands back
  \<^verbatim>\<open>data: null\<close> (the query failed).
\<close>

record player_ref =
  pr_uuid :: string
  pr_display_name :: "string option"

record membership_row =
  mr_player_uuid :: string
  mr_players :: "player_ref option"

record 'm daily_score =
  ds_player_uuid :: string
  ds_league_id :: string
  ds_date :: string
  ds_mistakes :: 'm

definition build_members_svc ::
  "membership_row list \<Rightarrow> int option daily_score list \<Rightarrow> entry list" where
  "build_members_svc membershipRows scoreRows =
     map (\<lambda>m.
       (let score = find (\<lambda>s. ds_player_uuid s = mr_player_uuid m) scoreRows
        in \<lparr>e_uuid = mr_player_uuid m,
            e_display_name = name_or_unknown (Option.bind (mr_players m) pr_display_name),
            e_mistakes = Option.bind score ds_mistakes,
            e_date = map_option ds_date score\<rparr>)) membershipRows"

definition or_empty :: "'a list option \<Rightarrow> 'a list" where
  "or_empty rows = (case rows of None \<Rightarrow> [] | Some xs \<Rightarrow> xs)"

definition computeLeaderboard_svc ::
  "(string \<Rightarrow> string \<Rightarrow> int) \<Rightarrow> string \<Rightarrow> string option \<Rightarrow> league option
     \<Rightarrow> membership_row list option \<Rightarrow> int option daily_score list option
     \<Rightarrow> error + leaderboard_response" where
  "computeLeaderboard_svc localeCompare today queryDate leagueRow membershipRows scoreRows =
     (let date = (if is_falsy queryDate then today else the queryDate)
      in case leagueRow of
           None \<Rightarrow> Inl NotFound
         | Some l \<Rightarrow> Inr
             \<lparr>lr_league = l, lr_date = date,
              lr_leaderboard =
                assign_ranks (sort_members localeCompare
                  (build_members_svc (or_empty membershipRows) (or_empty scoreRows)))\<rparr>)"

text \<open>
  Modelled from the spec: the Score Store's upsert, which the hosted database performs
  (\<^verbatim>\<open>onConflict: 'player_uuid,league_id,date'\<close>): overwrite-on-conflict keyed by
  (uuid, leagueId, date).
\<close>

definition upsert_daily_score :: "'m daily_score \<Rightarrow> 'm daily_score list \<Rightarrow> 'm daily_score list" where
  "upsert_daily_score row rows =
     (if \<exists>r \<in> set rows. ds_player_uuid r = ds_player_uuid row \<and> ds_league_id r = ds_league_id row
            \<and> ds_date r = ds_date row
      then map (\<lambda>r. if ds_player_uuid r = ds_player_uuid row \<and> ds_league_id r = ds_league_id row
                        \<and> ds_date r = ds_date row then row else r) rows
      else rows @ [row])"

text \<open>
  The fan-out loop of \<^verbatim>\<open>server.js\<close>. Whether one league's upsert comes back with an
  error is the store's doing: \<open>upsert_fails\<close>. A failed upsert writes nothing.
\<close>

fun fanout_svc ::
  "(string \<Rightarrow> bool) \<Rightarrow> string \<Rightarrow> string \<Rightarrow> 'm \<Rightarrow> string list \<Rightarrow> 'm daily_score list \<times> nat
     \<Rightarrow> 'm daily_score list \<times> nat" where
  "fanout_svc upsert_fails uuid date mistakes [] (rows, recorded) = (rows, recorded)"
| "fanout_svc upsert_fails uuid date mistakes (league_id # rest) (rows, recorded) =
     (if upsert_fails league_id
      then fanout_svc upsert_fails uuid date mistakes rest (rows, recorded)
      else fanout_svc upsert_fails uuid date mistakes rest
             (upsert_daily_score
                \<lparr>ds_player_uuid = uuid, ds_league_id = league_id, ds_date = date,
                 ds_mistakes = mistakes\<rparr> rows, recorded + 1))"

text \<open>
  The handler of \<^verbatim>\<open>POST /api/scores\<close>; \<open>membershipRows\<close> is what the select of the
  player's league ids returned.
\<close>

definition submitScore_svc ::
  "(string \<Rightarrow> bool) \<Rightarrow> string list option \<Rightarrow> string option \<Rightarrow> string option \<Rightarrow> 'm option
     \<Rightarrow> 'm daily_score list \<Rightarrow> (error + nat) \<times> 'm daily_score list" where
  "submitScore_svc upsert_fails membershipRows uuid date mistakes rows =
     (if score_request_rejected uuid date mistakes then (Inl ValidationError, rows)
      else if membershipRows = None \<or> or_empty membershipRows = [] then (Inr 0, rows)
      else (let (rows', recorded) =
                  fanout_svc upsert_fails (the uuid) (the date) (the mistakes)
                    (or_empty membershipRows) (rows, 0)
            in (Inr recorded, rows')))"





section \<open>Notions used in the statements\<close>

text \<open>The number of entries with a score in a list of members.\<close>

definition played_count :: "entry list \<Rightarrow> int" where
  "played_count ms = int (length (filter (\<lambda>m. e_mistakes m \<noteq> None) ms))"







text \<open>What identifies a membership row and a score row.\<close>

definition membership_key :: "membership \<Rightarrow> string \<times> string" where
  "membership_key m = (m_playerUuid m, m_leagueId m)"

definition score_key :: "'m score \<Rightarrow> string \<times> string \<times> string" where
  "score_key s = (s_playerUuid s, s_leagueId s, s_date s)"

definition score_member :: "'m score \<Rightarrow> string \<times> string" where
  "score_member s = (s_playerUuid s, s_leagueId s)"

text \<open>
  What holds of the database after every request history: one row per membership key
  and per score key, every player filed under its own uuid, and every score row owned by
  a membership.
\<close>

definition store_invariant :: "'m db \<Rightarrow> bool" where
  "store_invariant db =
     (distinct (map membership_key (memberships db))
      \<and> distinct (map score_key (scores db))
      \<and> (\<forall>u p. players db u = Some p \<longrightarrow> p_uuid p = u)
      \<and> score_member ` set (scores db) \<subseteq> membership_key ` set (memberships db))"

text \<open>
  A collation to run the model on: comparison by character code, which is what
  \<^verbatim>\<open>localeCompare\<close> gives on names written in letters of one case.
\<close>

fun codepoint_compare :: "string \<Rightarrow> string \<Rightarrow> int" where
  "codepoint_compare [] [] = 0"
| "codepoint_compare [] (y # ys) = - 1"
| "codepoint_compare (x # xs) [] = 1"
| "codepoint_compare (x # xs) (y # ys) =
     (if (of_char x :: nat) < of_char y then - 1
      else if (of_char y :: nat) < of_char x then 1
      else codepoint_compare xs ys)"

section \<open>Scenarios\<close>

text \<open>
  Concrete inputs to run the model on. The leaderboard of league abcd1234 on 2024-01-05:
  Alice has no score, Bob and Carol made two mistakes each, Dave none. A member list
  with two unplayed members. The request history in which the league is created, Bob
  joins it and then submits two mistakes, with the databases it leaves.
\<close>

definition scenario_league :: league where
  "scenario_league = \<lparr>l_id = ''abcd1234'', l_name = ''My League'', l_createdAt = 0\<rparr>"





definition joined_history :: "(timestamp \<times> 'm request) list" where
  "joined_history =
     [(1, CreateLeague ''abcd1234'' (Some ''My League '')),
      (2, JoinLeague ''abcd1234'' (Some ''u-bob'') (Some ''Bob''))]"

definition joined_db :: "'m db" where
  "joined_db =
     \<lparr>leagues = [''abcd1234'' \<mapsto> \<lparr>l_id = ''abcd1234'', l_name = ''My League'', l_createdAt = 1\<rparr>],
      players = [''u-bob'' \<mapsto> \<lparr>p_uuid = ''u-bob'', p_displayName = ''Bob'', p_createdAt = 2\<rparr>],
      memberships = [\<lparr>m_playerUuid = ''u-bob'', m_leagueId = ''abcd1234'', m_joinedAt = 2\<rparr>],
      scores = []\<rparr>"

definition played_history :: "(timestamp \<times> int option request) list" where
  "played_history = joined_history @
     [(3, SubmitScore (Some ''u-bob'') (Some ''2024-01-05'') (Some (Some 2)))]"

definition played_db :: "int option db" where
  "played_db = joined_db\<lparr>scores :=
     [\<lparr>s_playerUuid = ''u-bob'', s_leagueId = ''abcd1234'', s_date = ''2024-01-05'',
       s_mistakes = Some 2, s_recordedAt = 3\<rparr>]\<rparr>"



text \<open>
  A leaderboard query result in which the player record of one member, who scored one
  mistake, is missing.
\<close>

definition orphan_members :: "membership_row list" where
  "orphan_members =
     [\<lparr>mr_player_uuid = ''u-bob'', mr_players = Some \<lparr>pr_uuid = ''u-bob'', pr_display_name = Some ''Bob''\<rparr>\<rparr>,
      \<lparr>mr_player_uuid = ''u-lost'', mr_players = None\<rparr>]"

definition orphan_scores :: "int option daily_score list" where
  "orphan_scores =
     [\<lparr>ds_player_uuid = ''u-bob'', ds_league_id = ''abcd1234'', ds_date = ''2024-01-05'', ds_mistakes = Some 2\<rparr>,
      \<lparr>ds_player_uuid = ''u-lost'', ds_league_id = ''abcd1234'', ds_date = ''2024-01-05'', ds_mistakes = Some 1\<rparr>]"

section \<open>The two rank computations agree\<close>


lemma played_count_simps:
  "played_count [] = 0"
  "played_count (ms @ [m]) = played_count ms + (if e_mistakes m = None then 0 else 1)"
  by (simp_all add: played_count_def)

lemma position_arithmetic:
  "int (length ms) - int (length (filter (\<lambda>m. e_mistakes m = None) ms)) = played_count ms"
  unfolding played_count_def by (induction ms) auto

lemma rank_loop_flat_eq:
  "rank_loop_flat (pre @ suf) (length pre) cr lm suf = rank_loop cr lm (played_count pre) suf"
proof (induction suf arbitrary: pre cr lm)
  case Nil
  show ?case by simp
next
  case (Cons m suf)
  have step: "rank_loop_flat (pre @ m # suf) (Suc (length pre)) c l suf
      = rank_loop c l (played_count (pre @ [m])) suf" for c l
    using Cons.IH [of "pre @ [m]" c l] by simp
  have pos: "int (length pre) + 1 - int (length (filter (\<lambda>m. e_mistakes m = None) pre))
      = played_count pre + 1"
    using position_arithmetic [of pre] by simp
  show ?case
  proof (cases "e_mistakes m")
    case None
    then show ?thesis using step by (simp add: played_count_simps)
  next
    case (Some v)
    then show ?thesis using step by (simp add: played_count_simps Let_def pos)
  qed
qed

lemma assign_ranks_flat_eq: "assign_ranks_flat members = assign_ranks members"
  using rank_loop_flat_eq [of "[]" members 0 None]
  by (simp add: assign_ranks_flat_def assign_ranks_def played_count_simps)

text \<open>
  Claim C3, as stated: there is a sorted member list on which the flat-file rank
  computation (position arithmetic) and the service-backed one (running played count)
  give different ranks. The code has no such list: \<open>index + 1\<close> minus the number of
  unplayed entries before \<open>index\<close> is the number of played entries up to \<open>index\<close>.
\<close>

theorem rank_variants_never_disagree:
  "\<not> (\<exists>localeCompare members.
         assign_ranks_flat (sort_members localeCompare members)
           \<noteq> assign_ranks (sort_members localeCompare members))"
  by (simp add: assign_ranks_flat_eq)

text \<open>
  Claim C3, amended: on every member list, sorted or not, the flat-file rank
  computation and the service-backed rank computation return the same ranked list.
\<close>

theorem rank_variants_agree: "assign_ranks_flat members = assign_ranks members"
  by (rule assign_ranks_flat_eq)

section \<open>The sort\<close>


lemma mset_insert_sorted: "mset (insert_sorted cmp x ys) = add_mset x (mset ys)"
  by (induction ys) auto

lemma mset_array_sort: "mset (array_sort cmp xs) = mset xs"
  unfolding array_sort_def by (induction xs) (auto simp: mset_insert_sorted)







section \<open>Rank assignment on a sorted list\<close>

lemma with_rank_simps [simp]:
  "r_uuid (with_rank m k) = e_uuid m"
  "r_display_name (with_rank m k) = e_display_name m"
  "r_mistakes (with_rank m k) = e_mistakes m"
  "r_date (with_rank m k) = e_date m"
  "r_rank (with_rank m k) = k"
  by (simp_all add: with_rank_def)


























section \<open>The order of the sorted list\<close>












section \<open>Score submission: validation and fan-out\<close>

lemma trim_My_League: "trim ''My League '' = ''My League''"
  by (simp add: trim_def is_space_def)

lemma trim_Bob: "trim ''Bob'' = ''Bob''"
  by (simp add: trim_def is_space_def)

lemma run_joined_history: "run joined_history = (joined_db :: 'm db)"
  by (simp add: run_def joined_history_def joined_db_def emptyDB_def createLeague_def
      joinLeague_def upsertPlayer_join_def addMembership_def is_falsy_def Let_def
      trim_My_League trim_Bob)

lemma fanout_recorded:
  "snd (fanout now uuid date mistakes ls (rows, n)) = n + length ls"
  by (induction ls arbitrary: rows n) auto

lemma fanout_svc_recorded:
  "snd (fanout_svc f uuid date mistakes ls (rows, n)) = n + length (filter (\<lambda>l. \<not> f l) ls)"
  by (induction ls arbitrary: rows n) auto

lemma submitScore_rejected:
  assumes "score_request_rejected uuid date mistakes"
  shows "submitScore now uuid date mistakes db = (Inl ValidationError, db)"
    and "submitScore_svc f ms uuid date mistakes rows = (Inl ValidationError, rows)"
  using assms by (simp_all add: submitScore_def submitScore_svc_def)

lemma rejected_iff:
  "score_request_rejected uuid date mistakes
     = (uuid = None \<or> uuid = Some [] \<or> date = None \<or> date = Some [] \<or> mistakes = None)"
  by (auto simp: score_request_rejected_def is_falsy_def)

lemma submitScore_accepted:
  assumes "u \<noteq> []" and "d \<noteq> []"
  shows "submitScore now (Some u) (Some d) (Some m) db =
      (Inr (snd (fanout now u d m
                  (map m_leagueId (filter (\<lambda>x. m_playerUuid x = u) (memberships db))) (scores db, 0))),
       db\<lparr>scores := fst (fanout now u d m
                  (map m_leagueId (filter (\<lambda>x. m_playerUuid x = u) (memberships db))) (scores db, 0))\<rparr>)"
proof -
  have nr: "\<not> score_request_rejected (Some u) (Some d) (Some m)"
    using assms by (simp add: rejected_iff)
  show ?thesis
  proof (cases "filter (\<lambda>x. m_playerUuid x = u) (memberships db) = []")
    case True
    then show ?thesis using nr by (simp add: submitScore_def)
  next
    case False
    then show ?thesis using nr by (simp add: submitScore_def Let_def split: prod.splits)
  qed
qed

lemma submitScore_svc_accepted:
  assumes "u \<noteq> []" and "d \<noteq> []"
  shows "submitScore_svc f ms (Some u) (Some d) (Some m) rows =
      (Inr (snd (fanout_svc f u d m (or_empty ms) (rows, 0))),
       fst (fanout_svc f u d m (or_empty ms) (rows, 0)))"
proof -
  have nr: "\<not> score_request_rejected (Some u) (Some d) (Some m)"
    using assms by (simp add: rejected_iff)
  show ?thesis
  proof (cases "ms = None \<or> or_empty ms = []")
    case True
    then have "or_empty ms = []" by (auto simp: or_empty_def)
    then show ?thesis using nr True by (simp add: submitScore_svc_def)
  next
    case False
    then show ?thesis using nr by (auto simp: submitScore_svc_def Let_def split: prod.splits)
  qed
qed

text \<open>
  Claim C5, amended: in both servers submitScore answers ValidationError, with the store
  left as it was, when uuid or date is missing or empty or mistakes is missing; with
  uuid and date non-empty and any mistakes value at all it goes on to the fan-out.
\<close>

theorem score_validation:
  "(uuid = None \<or> uuid = Some [] \<or> date = None \<or> date = Some [] \<or> mistakes = None \<longrightarrow>
      submitScore now uuid date mistakes db = (Inl ValidationError, db)
      \<and> submitScore_svc upsert_fails membershipRows uuid date mistakes rows
          = (Inl ValidationError, rows))
   \<and> (uuid = Some u \<and> u \<noteq> [] \<and> date = Some d \<and> d \<noteq> [] \<and> mistakes = Some m \<longrightarrow>
      submitScore now uuid date mistakes db =
        (Inr (snd (fanout now u d m
                (map m_leagueId (filter (\<lambda>x. m_playerUuid x = u) (memberships db))) (scores db, 0))),
         db\<lparr>scores := fst (fanout now u d m
                (map m_leagueId (filter (\<lambda>x. m_playerUuid x = u) (memberships db))) (scores db, 0))\<rparr>)
      \<and> submitScore_svc upsert_fails membershipRows uuid date mistakes rows =
        (Inr (snd (fanout_svc upsert_fails u d m (or_empty membershipRows) (rows, 0))),
         fst (fanout_svc upsert_fails u d m (or_empty membershipRows) (rows, 0))))"
proof (intro conjI impI)
  assume "uuid = None \<or> uuid = Some [] \<or> date = None \<or> date = Some [] \<or> mistakes = None"
  then have r: "score_request_rejected uuid date mistakes" by (simp add: rejected_iff)
  show "submitScore now uuid date mistakes db = (Inl ValidationError, db)"
    using r by (rule submitScore_rejected)
  show "submitScore_svc upsert_fails membershipRows uuid date mistakes rows
      = (Inl ValidationError, rows)"
    using r by (rule submitScore_rejected)
next
  assume a: "uuid = Some u \<and> u \<noteq> [] \<and> date = Some d \<and> d \<noteq> [] \<and> mistakes = Some m"
  show "submitScore now uuid date mistakes db =
        (Inr (snd (fanout now u d m
                (map m_leagueId (filter (\<lambda>x. m_playerUuid x = u) (memberships db))) (scores db, 0))),
         db\<lparr>scores := fst (fanout now u d m
                (map m_leagueId (filter (\<lambda>x. m_playerUuid x = u) (memberships db))) (scores db, 0))\<rparr>)"
    using a submitScore_accepted [of u d now m db] by simp
  show "submitScore_svc upsert_fails membershipRows uuid date mistakes rows =
        (Inr (snd (fanout_svc upsert_fails u d m (or_empty membershipRows) (rows, 0))),
         fst (fanout_svc upsert_fails u d m (or_empty membershipRows) (rows, 0)))"
    using a submitScore_svc_accepted [of u d upsert_fails membershipRows m rows] by simp
qed

text \<open>
  Claim C5, as stated, has a negative or non-integer mistakes value rejected. The guard
  only asks whether mistakes is there: for a player in one league, the numbers -1 and
  the text "two" are both accepted and written.
\<close>

theorem negative_mistakes_accepted:
  "submitScore 3 (Some ''u-bob'') (Some ''2024-01-05'') (Some (- 1 :: int)) joined_db =
     (Inr 1, joined_db\<lparr>scores :=
        [\<lparr>s_playerUuid = ''u-bob'', s_leagueId = ''abcd1234'', s_date = ''2024-01-05'',
          s_mistakes = - 1, s_recordedAt = 3\<rparr>]\<rparr>)
   \<and> submitScore 3 (Some ''u-bob'') (Some ''2024-01-05'') (Some ''two'') joined_db =
     (Inr 1, joined_db\<lparr>scores :=
        [\<lparr>s_playerUuid = ''u-bob'', s_leagueId = ''abcd1234'', s_date = ''2024-01-05'',
          s_mistakes = ''two'', s_recordedAt = 3\<rparr>]\<rparr>)"
  by (simp add: submitScore_def score_request_rejected_def is_falsy_def joined_db_def
      upsertScore_def)

theorem score_validation_witness:
  "submitScore 3 None (Some ''2024-01-05'') (Some (2 :: int)) joined_db
     = (Inl ValidationError, joined_db)
   \<and> submitScore 3 (Some ''u-bob'') (Some ''2024-01-05'') (Some (2 :: int)) joined_db =
     (Inr 1, joined_db\<lparr>scores :=
        [\<lparr>s_playerUuid = ''u-bob'', s_leagueId = ''abcd1234'', s_date = ''2024-01-05'',
          s_mistakes = 2, s_recordedAt = 3\<rparr>]\<rparr>)"
proof -
  have "submitScore 3 None (Some ''2024-01-05'') (Some (2 :: int)) joined_db
      = (Inl ValidationError, joined_db)"
    using score_validation [of None "Some ''2024-01-05''" "Some (2 :: int)" 3 joined_db]
    by simp
  moreover have "submitScore 3 (Some ''u-bob'') (Some ''2024-01-05'') (Some (2 :: int)) joined_db =
     (Inr 1, joined_db\<lparr>scores :=
        [\<lparr>s_playerUuid = ''u-bob'', s_leagueId = ''abcd1234'', s_date = ''2024-01-05'',
          s_mistakes = 2, s_recordedAt = 3\<rparr>]\<rparr>)"
    using score_validation [of "Some ''u-bob''" "Some ''2024-01-05''" "Some (2 :: int)" 3 joined_db
        _ _ _ "''u-bob''" "''2024-01-05''" 2]
    by (simp add: joined_db_def upsertScore_def)
  ultimately show ?thesis by blast
qed

lemma upsert_daily_score_has_row: "row \<in> set (upsert_daily_score row rows)"
  by (auto simp: upsert_daily_score_def)

lemma upsert_daily_score_keeps:
  assumes "r \<in> set rows"
    and "r = row \<or> ds_player_uuid r \<noteq> ds_player_uuid row \<or> ds_league_id r \<noteq> ds_league_id row
           \<or> ds_date r \<noteq> ds_date row"
  shows "r \<in> set (upsert_daily_score row rows)"
  using assms by (auto simp: upsert_daily_score_def)

lemma fanout_svc_keeps:
  assumes "\<lparr>ds_player_uuid = u, ds_league_id = l, ds_date = d, ds_mistakes = m\<rparr> \<in> set rows"
  shows "\<lparr>ds_player_uuid = u, ds_league_id = l, ds_date = d, ds_mistakes = m\<rparr>
           \<in> set (fst (fanout_svc f u d m ls (rows, n)))"
  using assms
proof (induction ls arbitrary: rows n)
  case Nil
  then show ?case by simp
next
  case (Cons l' ls)
  show ?case
  proof (cases "f l'")
    case True
    then show ?thesis using Cons by simp
  next
    case False
    have "\<lparr>ds_player_uuid = u, ds_league_id = l, ds_date = d, ds_mistakes = m\<rparr>
        \<in> set (upsert_daily_score
                 \<lparr>ds_player_uuid = u, ds_league_id = l', ds_date = d, ds_mistakes = m\<rparr> rows)"
      using Cons.prems by (intro upsert_daily_score_keeps) auto
    then show ?thesis using False Cons.IH by simp
  qed
qed

lemma fanout_svc_writes:
  assumes "l \<in> set ls" and "\<not> f l"
  shows "\<lparr>ds_player_uuid = u, ds_league_id = l, ds_date = d, ds_mistakes = m\<rparr>
           \<in> set (fst (fanout_svc f u d m ls (rows, n)))"
  using assms
proof (induction ls arbitrary: rows n)
  case Nil
  then show ?case by simp
next
  case (Cons l' ls)
  show ?case
  proof (cases "l' = l")
    case True
    then show ?thesis using Cons.prems(2)
      by (simp add: fanout_svc_keeps upsert_daily_score_has_row)
  next
    case False
    then have "l \<in> set ls" using Cons.prems(1) by simp
    then show ?thesis using Cons.IH Cons.prems(2) by simp
  qed
qed

lemma upsert_daily_score_other:
  assumes "ds_league_id row \<noteq> l"
  shows "filter (\<lambda>r. ds_league_id r = l) (upsert_daily_score row rows)
       = filter (\<lambda>r. ds_league_id r = l) rows"
proof -
  have "filter (\<lambda>r. ds_league_id r = l)
          (map (\<lambda>r. if ds_player_uuid r = ds_player_uuid row \<and> ds_league_id r = ds_league_id row
                        \<and> ds_date r = ds_date row then row else r) rows)
      = filter (\<lambda>r. ds_league_id r = l) rows"
    using assms by (induction rows) auto
  then show ?thesis using assms by (simp add: upsert_daily_score_def)
qed

lemma fanout_svc_failed_untouched:
  assumes "f l"
  shows "filter (\<lambda>r. ds_league_id r = l) (fst (fanout_svc f u d m ls (rows, n)))
       = filter (\<lambda>r. ds_league_id r = l) rows"
proof (induction ls arbitrary: rows n)
  case Nil
  show ?case by simp
next
  case (Cons l' ls)
  show ?case
  proof (cases "f l'")
    case True
    then show ?thesis using Cons by simp
  next
    case False
    then have "l' \<noteq> l" using assms by auto
    then show ?thesis using False Cons.IH by (simp add: upsert_daily_score_other)
  qed
qed

text \<open>
  Claim C4: for an accepted request, submitScore answers recorded = 0 and changes
  nothing when the player is in no league; the flat-file server records every league of
  the player; the service-backed server, over the leagues its membership query returned,
  counts exactly the leagues whose upsert did not fail (all of them when none fails),
  writes the row of every such league whatever failed before it, and leaves the rows of
  a failed league as they were.
\<close>

theorem fanout_counts_successes:
  assumes "uuid = Some u \<and> u \<noteq> [] \<and> date = Some d \<and> d \<noteq> [] \<and> mistakes = Some m"
  shows "(filter (\<lambda>x. m_playerUuid x = u) (memberships db) = [] \<longrightarrow>
            submitScore now uuid date mistakes db = (Inr 0, db))
    \<and> fst (submitScore now uuid date mistakes db)
         = Inr (length (filter (\<lambda>x. m_playerUuid x = u) (memberships db)))
    \<and> submitScore_svc upsert_fails (Some []) uuid date mistakes rows = (Inr 0, rows)
    \<and> fst (submitScore_svc upsert_fails (Some ls) uuid date mistakes rows)
         = Inr (length (filter (\<lambda>l. \<not> upsert_fails l) ls))
    \<and> ((\<forall>l\<in>set ls. \<not> upsert_fails l) \<longrightarrow>
          fst (submitScore_svc upsert_fails (Some ls) uuid date mistakes rows) = Inr (length ls))
    \<and> (\<forall>l\<in>set ls. \<not> upsert_fails l \<longrightarrow>
          \<lparr>ds_player_uuid = u, ds_league_id = l, ds_date = d, ds_mistakes = m\<rparr>
            \<in> set (snd (submitScore_svc upsert_fails (Some ls) uuid date mistakes rows)))
    \<and> (\<forall>l\<in>set ls. upsert_fails l \<longrightarrow>
          filter (\<lambda>r. ds_league_id r = l)
              (snd (submitScore_svc upsert_fails (Some ls) uuid date mistakes rows))
            = filter (\<lambda>r. ds_league_id r = l) rows)"
proof -
  have u: "u \<noteq> []" and d: "d \<noteq> []" and eqs: "uuid = Some u" "date = Some d" "mistakes = Some m"
    using assms by simp_all
  note flat = submitScore_accepted [OF u d, of now m db]
  have svc: "submitScore_svc upsert_fails (Some ks) uuid date mistakes rows =
      (Inr (snd (fanout_svc upsert_fails u d m ks (rows, 0))),
       fst (fanout_svc upsert_fails u d m ks (rows, 0)))" for ks
    using submitScore_svc_accepted [OF u d, of upsert_fails "Some ks" m rows] eqs
    by (simp add: or_empty_def)
  have 1: "filter (\<lambda>x. m_playerUuid x = u) (memberships db) = [] \<longrightarrow>
            submitScore now uuid date mistakes db = (Inr 0, db)"
    using flat eqs by simp
  have 2: "fst (submitScore now uuid date mistakes db)
         = Inr (length (filter (\<lambda>x. m_playerUuid x = u) (memberships db)))"
    using flat eqs by (simp add: fanout_recorded)
  have 3: "submitScore_svc upsert_fails (Some []) uuid date mistakes rows = (Inr 0, rows)"
    using svc [of "[]"] by simp
  have 4: "fst (submitScore_svc upsert_fails (Some ls) uuid date mistakes rows)
         = Inr (length (filter (\<lambda>l. \<not> upsert_fails l) ls))"
    using svc [of ls] by (simp add: fanout_svc_recorded)
  have 5: "(\<forall>l\<in>set ls. \<not> upsert_fails l) \<longrightarrow>
          fst (submitScore_svc upsert_fails (Some ls) uuid date mistakes rows) = Inr (length ls)"
    using 4 by simp
  have 6: "\<forall>l\<in>set ls. \<not> upsert_fails l \<longrightarrow>
          \<lparr>ds_player_uuid = u, ds_league_id = l, ds_date = d, ds_mistakes = m\<rparr>
            \<in> set (snd (submitScore_svc upsert_fails (Some ls) uuid date mistakes rows))"
    using svc [of ls] by (simp add: fanout_svc_writes)
  have 7: "\<forall>l\<in>set ls. upsert_fails l \<longrightarrow>
          filter (\<lambda>r. ds_league_id r = l)
              (snd (submitScore_svc upsert_fails (Some ls) uuid date mistakes rows))
            = filter (\<lambda>r. ds_league_id r = l) rows"
    using svc [of ls] by (simp add: fanout_svc_failed_untouched)
  show ?thesis using 1 2 3 4 5 6 7 by blast
qed

theorem fanout_counts_successes_witness:
  "fst (submitScore_svc (\<lambda>l. l = ''bbbb2222'') (Some [''aaaa1111'', ''bbbb2222'', ''cccc3333''])
          (Some ''u-bob'') (Some ''2024-01-05'') (Some (2 :: int)) []) = Inr 2
   \<and> snd (submitScore_svc (\<lambda>l. l = ''bbbb2222'') (Some [''aaaa1111'', ''bbbb2222'', ''cccc3333''])
          (Some ''u-bob'') (Some ''2024-01-05'') (Some (2 :: int)) []) =
       [\<lparr>ds_player_uuid = ''u-bob'', ds_league_id = ''aaaa1111'', ds_date = ''2024-01-05'', ds_mistakes = 2\<rparr>,
        \<lparr>ds_player_uuid = ''u-bob'', ds_league_id = ''cccc3333'', ds_date = ''2024-01-05'', ds_mistakes = 2\<rparr>]
   \<and> fst (submitScore 3 (Some ''u-bob'') (Some ''2024-01-05'') (Some (2 :: int)) joined_db) = Inr 1"
proof -
  have v: "Some ''u-bob'' = Some ''u-bob'' \<and> ''u-bob'' \<noteq> [] \<and> Some ''2024-01-05'' = Some ''2024-01-05''
      \<and> ''2024-01-05'' \<noteq> [] \<and> Some (2 :: int) = Some 2"
    by simp
  note inst = fanout_counts_successes [OF v, of joined_db 3 "\<lambda>l. l = ''bbbb2222''" "[]"
      "[''aaaa1111'', ''bbbb2222'', ''cccc3333'']"]
  have "fst (submitScore_svc (\<lambda>l. l = ''bbbb2222'') (Some [''aaaa1111'', ''bbbb2222'', ''cccc3333''])
          (Some ''u-bob'') (Some ''2024-01-05'') (Some (2 :: int)) []) = Inr 2"
    using inst [THEN conjunct2, THEN conjunct2, THEN conjunct2, THEN conjunct1] by simp
  moreover have "fst (submitScore 3 (Some ''u-bob'') (Some ''2024-01-05'') (Some (2 :: int)) joined_db)
      = Inr 1"
    using inst [THEN conjunct2, THEN conjunct1] by (simp add: joined_db_def)
  moreover have "snd (submitScore_svc (\<lambda>l. l = ''bbbb2222'') (Some [''aaaa1111'', ''bbbb2222'', ''cccc3333''])
          (Some ''u-bob'') (Some ''2024-01-05'') (Some (2 :: int)) []) =
       [\<lparr>ds_player_uuid = ''u-bob'', ds_league_id = ''aaaa1111'', ds_date = ''2024-01-05'', ds_mistakes = 2\<rparr>,
        \<lparr>ds_player_uuid = ''u-bob'', ds_league_id = ''cccc3333'', ds_date = ''2024-01-05'', ds_mistakes = 2\<rparr>]"
    by (simp add: submitScore_svc_def score_request_rejected_def is_falsy_def or_empty_def
        upsert_daily_score_def)
  ultimately show ?thesis by blast
qed

section \<open>The store after any request history\<close>

lemma upsertScore_Nil:
  "upsertScore now u l d m [] =
     [\<lparr>s_playerUuid = u, s_leagueId = l, s_date = d, s_mistakes = m, s_recordedAt = now\<rparr>]"
  by (simp add: upsertScore_def)

lemma findIndex_update_Cons:
  assumes "\<not> P r"
  shows "(let i = findIndex P (r # rs)
          in if i \<ge> 0 then (r # rs)[nat i := f ((r # rs) ! nat i)] else (r # rs) @ [x])
       = r # (let i = findIndex P rs
              in if i \<ge> 0 then rs[nat i := f (rs ! nat i)] else rs @ [x])"
proof (cases "findIndex P rs < 0")
  case True
  then show ?thesis using assms by (simp add: Let_def)
next
  case False
  then have "nat (findIndex P rs + 1) = Suc (nat (findIndex P rs))" by simp
  then show ?thesis using assms False by (simp add: Let_def)
qed

lemma upsertScore_Cons:
  "upsertScore now u l d m (r # rs) =
     (if s_playerUuid r = u \<and> s_leagueId r = l \<and> s_date r = d
      then r\<lparr>s_mistakes := m, s_recordedAt := now\<rparr> # rs
      else r # upsertScore now u l d m rs)"
proof (cases "s_playerUuid r = u \<and> s_leagueId r = l \<and> s_date r = d")
  case True
  then show ?thesis by (simp add: upsertScore_def)
next
  case False
  have "upsertScore now u l d m (r # rs) = r # upsertScore now u l d m rs"
    unfolding upsertScore_def
    by (rule findIndex_update_Cons
        [of "\<lambda>s. s_playerUuid s = u \<and> s_leagueId s = l \<and> s_date s = d" r rs
            "\<lambda>s. s\<lparr>s_mistakes := m, s_recordedAt := now\<rparr>"]) (rule False)
  then show ?thesis by (simp only: False if_False)
qed

lemma score_key_upsertScore:
  "map score_key (upsertScore now u l d m rows) =
     (if (u, l, d) \<in> set (map score_key rows) then map score_key rows
      else map score_key rows @ [(u, l, d)])"
  by (induction rows) (auto simp: upsertScore_Nil upsertScore_Cons score_key_def)

lemma distinct_upsertScore:
  "distinct (map score_key rows) \<Longrightarrow> distinct (map score_key (upsertScore now u l d m rows))"
  by (simp add: score_key_upsertScore)

lemma score_member_upsertScore:
  "score_member ` set (upsertScore now u l d m rows) = insert (u, l) (score_member ` set rows)"
  by (induction rows) (auto simp: upsertScore_Nil upsertScore_Cons score_member_def)

lemma upsertScore_one_row:
  assumes "distinct (map score_key rows)"
  shows "filter (\<lambda>s. score_key s = (u, l, d)) (upsertScore now u l d m rows) =
     [\<lparr>s_playerUuid = u, s_leagueId = l, s_date = d, s_mistakes = m, s_recordedAt = now\<rparr>]"
  using assms
proof (induction rows)
  case Nil
  show ?case by (simp add: upsertScore_Nil score_key_def)
next
  case (Cons r rs)
  show ?case
  proof (cases "s_playerUuid r = u \<and> s_leagueId r = l \<and> s_date r = d")
    case True
    then have "score_key r = (u, l, d)" by (simp add: score_key_def)
    then have "\<forall>x\<in>set rs. score_key x \<noteq> (u, l, d)" using Cons.prems by force
    then have "filter (\<lambda>s. score_key s = (u, l, d)) rs = []"
      by (simp add: filter_empty_conv)
    then show ?thesis using True by (simp add: upsertScore_Cons score_key_def)
  next
    case False
    then show ?thesis using Cons by (auto simp: upsertScore_Cons score_key_def)
  qed
qed

lemma distinct_fanout:
  "distinct (map score_key rows) \<Longrightarrow> distinct (map score_key (fst (fanout now u d m ls (rows, n))))"
  by (induction ls arbitrary: rows n) (auto simp: distinct_upsertScore)

lemma score_member_fanout:
  "score_member ` set (fst (fanout now u d m ls (rows, n)))
     = (\<lambda>l. (u, l)) ` set ls \<union> score_member ` set rows"
proof (induction ls arbitrary: rows n)
  case Nil
  show ?case by simp
next
  case (Cons l ls)
  have "score_member ` set (fst (fanout now u d m (l # ls) (rows, n)))
      = (\<lambda>l. (u, l)) ` set ls \<union> score_member ` set (upsertScore now u l d m rows)"
    using Cons [of "upsertScore now u l d m rows" "n + 1"] by simp
  also have "\<dots> = (\<lambda>l. (u, l)) ` set (l # ls) \<union> score_member ` set rows"
    unfolding score_member_upsertScore by auto
  finally show ?case .
qed

lemma find_membership_None:
  "(find (\<lambda>m. m_playerUuid m = u \<and> m_leagueId m = l) ms = None)
     = ((u, l) \<notin> membership_key ` set ms)"
  by (auto simp: find_None_iff membership_key_def)

lemma addMembership_fields:
  "memberships (addMembership now u l db) =
     (if (u, l) \<in> membership_key ` set (memberships db) then memberships db
      else memberships db @ [\<lparr>m_playerUuid = u, m_leagueId = l, m_joinedAt = now\<rparr>])"
  "leagues (addMembership now u l db) = leagues db"
  "players (addMembership now u l db) = players db"
  "scores (addMembership now u l db) = scores db"
  using find_membership_None [of u l "memberships db"]
  by (auto simp: addMembership_def split: option.splits)

lemma upsertPlayer_join_fields:
  "memberships (upsertPlayer_join now u n db) = memberships db"
  "leagues (upsertPlayer_join now u n db) = leagues db"
  "scores (upsertPlayer_join now u n db) = scores db"
  "players (upsertPlayer_join now u n db) = (players db)(u \<mapsto>
     \<lparr>p_uuid = u, p_displayName = trim n,
      p_createdAt = (case players db u of Some p \<Rightarrow> p_createdAt p | None \<Rightarrow> now)\<rparr>)"
  by (simp_all add: upsertPlayer_join_def)

lemma upsertPlayer_put_fields:
  "memberships (upsertPlayer_put now u n db) = memberships db"
  "leagues (upsertPlayer_put now u n db) = leagues db"
  "scores (upsertPlayer_put now u n db) = scores db"
  "players (upsertPlayer_put now u n db) = (players db)(u \<mapsto>
     (case players db u of
        None \<Rightarrow> \<lparr>p_uuid = u, p_displayName = trim n, p_createdAt = now\<rparr>
      | Some p \<Rightarrow> p\<lparr>p_displayName := trim n\<rparr>))"
  by (simp_all add: upsertPlayer_put_def split: option.splits)

lemma invariant_createLeague:
  "store_invariant db \<Longrightarrow> store_invariant (snd (createLeague now id' name db))"
  by (simp add: createLeague_def store_invariant_def Let_def)

lemma invariant_upsertPlayer_join:
  "store_invariant db \<Longrightarrow> store_invariant (upsertPlayer_join now u n db)"
  by (simp add: store_invariant_def upsertPlayer_join_fields)

lemma invariant_upsertPlayer_put:
  "store_invariant db \<Longrightarrow> store_invariant (upsertPlayer_put now u n db)"
  by (auto simp: store_invariant_def upsertPlayer_put_fields split: option.splits)

lemma invariant_addMembership:
  "store_invariant db \<Longrightarrow> store_invariant (addMembership now u l db)"
  by (auto simp: store_invariant_def addMembership_fields membership_key_def)

lemma invariant_joinLeague:
  "store_invariant db \<Longrightarrow> store_invariant (snd (joinLeague now id' uuid displayName db))"
  by (simp add: joinLeague_def invariant_addMembership invariant_upsertPlayer_join
      split: option.splits)

lemma invariant_updatePlayer:
  "store_invariant db \<Longrightarrow> store_invariant (snd (updatePlayer now uuid displayName db))"
  by (simp add: updatePlayer_def invariant_upsertPlayer_put)

lemma player_leagues_are_memberships:
  "(\<lambda>l. (u, l)) ` set (map m_leagueId (filter (\<lambda>m. m_playerUuid m = u) ms))
     \<subseteq> membership_key ` set ms"
  by (auto simp: membership_key_def image_iff)

lemma invariant_fanout:
  assumes "store_invariant db"
  shows "store_invariant (db\<lparr>scores := fst (fanout now u d m
           (map m_leagueId (filter (\<lambda>x. m_playerUuid x = u) (memberships db))) (scores db, 0))\<rparr>)"
  using assms player_leagues_are_memberships [of u "memberships db"]
  by (simp add: store_invariant_def distinct_fanout score_member_fanout)

lemma submitScore_cases:
  "snd (submitScore now uuid date mistakes db) = db
   \<or> (\<exists>u d m. uuid = Some u \<and> date = Some d \<and> mistakes = Some m
        \<and> snd (submitScore now uuid date mistakes db) =
          db\<lparr>scores := fst (fanout now u d m
            (map m_leagueId (filter (\<lambda>x. m_playerUuid x = u) (memberships db))) (scores db, 0))\<rparr>)"
proof (cases "score_request_rejected uuid date mistakes")
  case True
  then show ?thesis by (simp add: submitScore_rejected)
next
  case False
  then obtain u d m where "uuid = Some u" "u \<noteq> []" "date = Some d" "d \<noteq> []" "mistakes = Some m"
    by (auto simp: rejected_iff)
  then show ?thesis using submitScore_accepted [of u d now m db] by simp
qed

lemma invariant_submitScore:
  "store_invariant db \<Longrightarrow> store_invariant (snd (submitScore now uuid date mistakes db))"
  using submitScore_cases [of now uuid date mistakes db] invariant_fanout [of db]
  by auto

lemma invariant_step: "store_invariant db \<Longrightarrow> store_invariant (step db r)"
proof (cases r)
  case (Pair now q)
  assume "store_invariant db"
  then show ?thesis using Pair
    by (cases q) (simp_all add: invariant_createLeague invariant_joinLeague
        invariant_submitScore invariant_updatePlayer)
qed

lemma invariant_foldl: "store_invariant db \<Longrightarrow> store_invariant (foldl step db reqs)"
  by (induction reqs arbitrary: db) (simp_all add: invariant_step)

lemma invariant_run: "store_invariant (run reqs)"
  unfolding run_def by (rule invariant_foldl) (simp add: store_invariant_def emptyDB_def)

lemma run_append: "run (reqs @ [r]) = step (run reqs) r"
  by (simp add: run_def)

lemma run_played_history: "run played_history = played_db"
  unfolding played_history_def run_append run_joined_history
  by (simp add: played_db_def joined_db_def submitScore_def score_request_rejected_def
      is_falsy_def upsertScore_def)

lemma other_requests_keep_scores:
  assumes "\<forall>u d m. q \<noteq> SubmitScore u d m"
  shows "scores (step db (now, q)) = scores db"
  using assms
  by (cases q)
    (simp_all add: createLeague_def joinLeague_def updatePlayer_def Let_def
      addMembership_fields upsertPlayer_join_fields upsertPlayer_put_fields split: option.splits)

lemma submission_rows:
  assumes "s \<in> set (scores (snd (submitScore now uuid date mistakes db)))"
  shows "score_member s \<in> score_member ` set (scores db)
    \<or> (\<exists>mb\<in>set (memberships db). Some (m_playerUuid mb) = uuid \<and> membership_key mb = score_member s)"
proof -
  from submitScore_cases [of now uuid date mistakes db]
  show ?thesis
  proof
    assume "snd (submitScore now uuid date mistakes db) = db"
    then show ?thesis using assms by auto
  next
    assume "\<exists>u d m. uuid = Some u \<and> date = Some d \<and> mistakes = Some m
        \<and> snd (submitScore now uuid date mistakes db) =
          db\<lparr>scores := fst (fanout now u d m
            (map m_leagueId (filter (\<lambda>x. m_playerUuid x = u) (memberships db))) (scores db, 0))\<rparr>"
    then obtain u d m where u: "uuid = Some u"
      and eq: "snd (submitScore now uuid date mistakes db) =
          db\<lparr>scores := fst (fanout now u d m
            (map m_leagueId (filter (\<lambda>x. m_playerUuid x = u) (memberships db))) (scores db, 0))\<rparr>"
      by blast
    have "score_member s \<in> score_member ` set (fst (fanout now u d m
            (map m_leagueId (filter (\<lambda>x. m_playerUuid x = u) (memberships db))) (scores db, 0)))"
      using assms eq by simp
    then have "score_member s \<in> (\<lambda>l. (u, l)) `
          set (map m_leagueId (filter (\<lambda>x. m_playerUuid x = u) (memberships db)))
        \<or> score_member s \<in> score_member ` set (scores db)"
      unfolding score_member_fanout by blast
    then show ?thesis
    proof
      assume "score_member s \<in> (\<lambda>l. (u, l)) `
          set (map m_leagueId (filter (\<lambda>x. m_playerUuid x = u) (memberships db)))"
      then obtain mb where "mb \<in> set (memberships db)" "m_playerUuid mb = u"
        "score_member s = (u, m_leagueId mb)" by auto
      then show ?thesis using u by (auto simp: membership_key_def)
    next
      assume "score_member s \<in> score_member ` set (scores db)"
      then show ?thesis by blast
    qed
  qed
qed

text \<open>
  Claim C6: after any sequence of requests, starting with no data, every score row's
  (playerUuid, leagueId) is that of a membership row. Only a score submission touches
  the score rows, and each row it leaves either continues a row that was there or
  belongs to a membership of the submitting player.
\<close>

theorem scores_belong_to_memberships:
  "(\<forall>s\<in>set (scores (run reqs)). \<exists>mb\<in>set (memberships (run reqs)).
       m_playerUuid mb = s_playerUuid s \<and> m_leagueId mb = s_leagueId s)
   \<and> ((\<forall>u d m. q \<noteq> SubmitScore u d m) \<longrightarrow> scores (step db (now, q)) = scores db)
   \<and> (\<forall>s\<in>set (scores (step db (now, SubmitScore uuid date mistakes))).
         score_member s \<in> score_member ` set (scores db)
         \<or> (\<exists>mb\<in>set (memberships db). Some (m_playerUuid mb) = uuid
               \<and> membership_key mb = score_member s))"
proof -
  have "score_member ` set (scores (run reqs)) \<subseteq> membership_key ` set (memberships (run reqs))"
    using invariant_run [of reqs] by (simp add: store_invariant_def)
  then have a: "\<forall>s\<in>set (scores (run reqs)). \<exists>mb\<in>set (memberships (run reqs)).
       m_playerUuid mb = s_playerUuid s \<and> m_leagueId mb = s_leagueId s"
    by (fastforce simp: score_member_def membership_key_def)
  have b: "(\<forall>u d m. q \<noteq> SubmitScore u d m) \<longrightarrow> scores (step db (now, q)) = scores db"
    using other_requests_keep_scores by blast
  have c: "\<forall>s\<in>set (scores (step db (now, SubmitScore uuid date mistakes))).
         score_member s \<in> score_member ` set (scores db)
         \<or> (\<exists>mb\<in>set (memberships db). Some (m_playerUuid mb) = uuid
               \<and> membership_key mb = score_member s)"
    using submission_rows [of _ now uuid date mistakes db] by simp
  show ?thesis using a b c by blast
qed

theorem scores_belong_to_memberships_witness:
  "map score_member (scores (run played_history)) = [(''u-bob'', ''abcd1234'')]
   \<and> (\<exists>mb\<in>set (memberships (run played_history)).
         m_playerUuid mb = ''u-bob'' \<and> m_leagueId mb = ''abcd1234'')"
proof -
  let ?row = "\<lparr>s_playerUuid = ''u-bob'', s_leagueId = ''abcd1234'', s_date = ''2024-01-05'',
       s_mistakes = Some (2 :: int), s_recordedAt = 3\<rparr>"
  have rows: "scores (run played_history) = [?row]"
    by (simp add: run_played_history played_db_def)
  then have "?row \<in> set (scores (run played_history))" by simp
  then have "\<exists>mb\<in>set (memberships (run played_history)).
       m_playerUuid mb = s_playerUuid ?row \<and> m_leagueId mb = s_leagueId ?row"
    using scores_belong_to_memberships [of played_history, THEN conjunct1] by blast
  then show ?thesis using rows by (simp add: score_member_def)
qed

lemma addMembership_again:
  "addMembership t2 u l (addMembership t1 u l db) = addMembership t1 u l db"
proof -
  have "(u, l) \<in> membership_key ` set (memberships (addMembership t1 u l db))"
    by (simp add: addMembership_fields membership_key_def)
  then have "find (\<lambda>m. m_playerUuid m = u \<and> m_leagueId m = l)
      (memberships (addMembership t1 u l db)) \<noteq> None"
    by (simp add: find_membership_None)
  then show ?thesis by (auto simp: addMembership_def [of t2] split: option.splits)
qed

lemma distinct_key_once:
  assumes "distinct (map f xs)" and "k \<in> f ` set xs"
  shows "length (filter (\<lambda>x. f x = k) xs) = 1"
  using assms
proof (induction xs)
  case Nil
  then show ?case by simp
next
  case (Cons x xs)
  show ?case
  proof (cases "f x = k")
    case True
    then have "k \<notin> f ` set xs" using Cons.prems(1) by simp
    then have "\<forall>y\<in>set xs. f y \<noteq> k" by blast
    then have "filter (\<lambda>x. f x = k) xs = []" by (simp add: filter_empty_conv)
    then show ?thesis using True by simp
  next
    case False
    then show ?thesis using Cons by auto
  qed
qed

lemma addMembership_one_row:
  assumes "store_invariant db"
  shows "length (filter (\<lambda>m. m_playerUuid m = u \<and> m_leagueId m = l)
           (memberships (addMembership now u l db))) = 1"
proof -
  have "store_invariant (addMembership now u l db)" using assms by (rule invariant_addMembership)
  then have d: "distinct (map membership_key (memberships (addMembership now u l db)))"
    by (simp add: store_invariant_def)
  have k: "(u, l) \<in> membership_key ` set (memberships (addMembership now u l db))"
    by (simp add: addMembership_fields membership_key_def)
  have "length (filter (\<lambda>m. membership_key m = (u, l)) (memberships (addMembership now u l db))) = 1"
    using d k by (rule distinct_key_once)
  then show ?thesis by (simp add: membership_key_def)
qed

text \<open>
  Claim C7: after any request history, adding the membership of a player to a league
  twice leaves what the first call left (so the row and its joinedAt stay), with exactly
  one row for the pair; and writing the score of (u, l, d) twice leaves exactly one row
  for it, holding the second value and the second write's time.
\<close>

theorem membership_and_score_written_once:
  "addMembership t2 u l (addMembership t1 u l (run reqs)) = addMembership t1 u l (run reqs)
   \<and> length (filter (\<lambda>m. m_playerUuid m = u \<and> m_leagueId m = l)
        (memberships (addMembership t2 u l (addMembership t1 u l (run reqs))))) = 1
   \<and> filter (\<lambda>s. s_playerUuid s = u \<and> s_leagueId s = l \<and> s_date s = d)
        (upsertScore t2 u l d m2 (upsertScore t1 u l d m1 (scores (run reqs))))
      = [\<lparr>s_playerUuid = u, s_leagueId = l, s_date = d, s_mistakes = m2, s_recordedAt = t2\<rparr>]"
proof -
  have inv: "store_invariant (run reqs)" by (rule invariant_run)
  have a: "addMembership t2 u l (addMembership t1 u l (run reqs)) = addMembership t1 u l (run reqs)"
    by (rule addMembership_again)
  have b: "length (filter (\<lambda>m. m_playerUuid m = u \<and> m_leagueId m = l)
        (memberships (addMembership t2 u l (addMembership t1 u l (run reqs))))) = 1"
    unfolding a using inv by (rule addMembership_one_row)
  have "distinct (map score_key (upsertScore t1 u l d m1 (scores (run reqs))))"
    using inv by (simp add: store_invariant_def distinct_upsertScore)
  then have "filter (\<lambda>s. score_key s = (u, l, d))
        (upsertScore t2 u l d m2 (upsertScore t1 u l d m1 (scores (run reqs))))
      = [\<lparr>s_playerUuid = u, s_leagueId = l, s_date = d, s_mistakes = m2, s_recordedAt = t2\<rparr>]"
    by (rule upsertScore_one_row)
  then have c: "filter (\<lambda>s. s_playerUuid s = u \<and> s_leagueId s = l \<and> s_date s = d)
        (upsertScore t2 u l d m2 (upsertScore t1 u l d m1 (scores (run reqs))))
      = [\<lparr>s_playerUuid = u, s_leagueId = l, s_date = d, s_mistakes = m2, s_recordedAt = t2\<rparr>]"
    by (simp add: score_key_def)
  show ?thesis using a b c by blast
qed

theorem membership_and_score_written_once_witness:
  "memberships (addMembership 5 ''u-bob'' ''abcd1234'' (addMembership 4 ''u-bob'' ''abcd1234'' played_db))
     = [\<lparr>m_playerUuid = ''u-bob'', m_leagueId = ''abcd1234'', m_joinedAt = 2\<rparr>]
   \<and> upsertScore 5 ''u-bob'' ''abcd1234'' ''2024-01-05'' (Some 0)
        (upsertScore 4 ''u-bob'' ''abcd1234'' ''2024-01-05'' (Some 4) (scores played_db))
     = [\<lparr>s_playerUuid = ''u-bob'', s_leagueId = ''abcd1234'', s_date = ''2024-01-05'',
         s_mistakes = Some 0, s_recordedAt = 5\<rparr>]"
proof -
  note inst = membership_and_score_written_once [of 5 "''u-bob''" "''abcd1234''" 4 played_history
      "''2024-01-05''" "Some 0" "Some 4"]
  have "addMembership 5 ''u-bob'' ''abcd1234'' (addMembership 4 ''u-bob'' ''abcd1234'' played_db)
      = addMembership 4 ''u-bob'' ''abcd1234'' played_db"
    using inst [THEN conjunct1] by (simp add: run_played_history)
  then have "memberships (addMembership 5 ''u-bob'' ''abcd1234'' (addMembership 4 ''u-bob'' ''abcd1234'' played_db))
     = [\<lparr>m_playerUuid = ''u-bob'', m_leagueId = ''abcd1234'', m_joinedAt = 2\<rparr>]"
    by (simp add: addMembership_def played_db_def joined_db_def)
  moreover have "upsertScore 5 ''u-bob'' ''abcd1234'' ''2024-01-05'' (Some 0)
        (upsertScore 4 ''u-bob'' ''abcd1234'' ''2024-01-05'' (Some 4) (scores played_db))
     = [\<lparr>s_playerUuid = ''u-bob'', s_leagueId = ''abcd1234'', s_date = ''2024-01-05'',
         s_mistakes = Some 0, s_recordedAt = 5\<rparr>]"
    by (simp add: upsertScore_def played_db_def joined_db_def)
  ultimately show ?thesis by blast
qed






section \<open>Player summary and members without a player record\<close>








lemma set_sort_members: "set (sort_members lc ms) = set ms"
  using mset_array_sort [of "compare_members lc" ms]
  by (metis sort_members_def set_mset_mset)

lemma length_sort_members: "length (sort_members lc ms) = length ms"
  using mset_array_sort [of "compare_members lc" ms]
  by (metis sort_members_def size_mset)

lemma length_rank_loop: "length (rank_loop cr lm pc ms) = length ms"
  by (induction ms arbitrary: cr lm pc) (auto split: option.splits)

lemma rank_loop_Cons:
  "\<exists>k c l p. rank_loop cr lm pc (x # xs) = with_rank x k # rank_loop c l p xs
     \<and> (k = None) = (e_mistakes x = None)"
proof (cases "e_mistakes x")
  case None
  then have "rank_loop cr lm pc (x # xs) = with_rank x None # rank_loop cr lm pc xs" by simp
  then show ?thesis using None
    by (intro exI [of _ None] exI [of _ cr] exI [of _ lm] exI [of _ pc]) simp
next
  case (Some v)
  show ?thesis
  proof (cases "lm = Some v")
    case True
    then have "rank_loop cr lm pc (x # xs)
        = with_rank x (Some cr) # rank_loop cr lm (pc + 1) xs"
      using Some by simp
    then show ?thesis using Some
      by (intro exI [of _ "Some cr"] exI [of _ cr] exI [of _ lm] exI [of _ "pc + 1"]) simp
  next
    case False
    then have "Some v \<noteq> lm" by auto
    then have "rank_loop cr lm pc (x # xs)
        = with_rank x (Some (pc + 1)) # rank_loop (pc + 1) (Some v) (pc + 1) xs"
      using Some by simp
    then show ?thesis using Some
      by (intro exI [of _ "Some (pc + 1)"] exI [of _ "pc + 1"] exI [of _ "Some v"]
          exI [of _ "pc + 1"]) simp
  qed
qed

lemma rank_loop_has_member:
  "m \<in> set ms \<Longrightarrow>
     \<exists>k. with_rank m k \<in> set (rank_loop cr lm pc ms) \<and> (k = None) = (e_mistakes m = None)"
proof (induction ms arbitrary: cr lm pc)
  case Nil
  then show ?case by simp
next
  case (Cons x xs)
  obtain k c l p where step: "rank_loop cr lm pc (x # xs) = with_rank x k # rank_loop c l p xs"
    and k: "(k = None) = (e_mistakes x = None)"
    using rank_loop_Cons [of cr lm pc x xs] by (elim exE conjE)
  show ?case
  proof (cases "m = x")
    case True
    have "with_rank m k \<in> set (rank_loop cr lm pc (x # xs))" unfolding step True by simp
    then show ?thesis using k True by (intro exI [of _ k]) simp
  next
    case False
    then have "m \<in> set xs" using Cons.prems by simp
    then have "\<exists>j. with_rank m j \<in> set (rank_loop c l p xs)
        \<and> (j = None) = (e_mistakes m = None)"
      by (rule Cons.IH)
    then obtain j where j: "with_rank m j \<in> set (rank_loop c l p xs)"
      "(j = None) = (e_mistakes m = None)"
      by (elim exE conjE)
    have "with_rank m j \<in> set (rank_loop cr lm pc (x # xs))"
      unfolding step using j(1) by simp
    then show ?thesis using j(2) by (intro exI [of _ j]) simp
  qed
qed

lemma leaderboard_has_member:
  assumes "e \<in> set ms"
  shows "\<exists>k. with_rank e k \<in> set (assign_ranks (sort_members lc ms))
           \<and> (k = None) = (e_mistakes e = None)"
  unfolding assign_ranks_def
  using assms by (intro rank_loop_has_member) (simp add: set_sort_members)

lemma length_leaderboard: "length (assign_ranks (sort_members lc ms)) = length ms"
  by (simp add: assign_ranks_def length_rank_loop length_sort_members)

text \<open>
  Claim C10: when a league exists and the player record of one of its members is
  missing, computeLeaderboard, in either server, still answers with a leaderboard of one
  entry per member; the entry of that member is named Unknown, carries the member's
  score of the date like any other entry, and is ranked exactly when it has a score.
\<close>

theorem member_without_player_is_unknown:
  "(leagues db id' = Some l \<and> mb \<in> set (memberships db) \<and> m_leagueId mb = id'
      \<and> players db (m_playerUuid mb) = None \<longrightarrow>
      (\<exists>res k. computeLeaderboard localeCompare today id' queryDate db = Inr res
        \<and> length (lr_leaderboard res) = length (filter (\<lambda>m. m_leagueId m = id') (memberships db))
        \<and> with_rank
             \<lparr>e_uuid = m_playerUuid mb, e_display_name = ''Unknown'',
              e_mistakes = Option.bind
                (find (\<lambda>s. s_playerUuid s = m_playerUuid mb)
                   (filter (\<lambda>s. s_leagueId s = id' \<and> s_date s = lr_date res) (scores db)))
                s_mistakes,
              e_date = map_option s_date
                (find (\<lambda>s. s_playerUuid s = m_playerUuid mb)
                   (filter (\<lambda>s. s_leagueId s = id' \<and> s_date s = lr_date res) (scores db)))\<rparr> k
            \<in> set (lr_leaderboard res)
        \<and> (k = None) = (Option.bind
                (find (\<lambda>s. s_playerUuid s = m_playerUuid mb)
                   (filter (\<lambda>s. s_leagueId s = id' \<and> s_date s = lr_date res) (scores db)))
                s_mistakes = None)))
   \<and> (row \<in> set membershipRows \<and> mr_players row = None \<longrightarrow>
      (\<exists>res k. computeLeaderboard_svc localeCompare today queryDate (Some l)
                  (Some membershipRows) (Some scoreRows) = Inr res
        \<and> length (lr_leaderboard res) = length membershipRows
        \<and> with_rank
             \<lparr>e_uuid = mr_player_uuid row, e_display_name = ''Unknown'',
              e_mistakes = Option.bind
                (find (\<lambda>s. ds_player_uuid s = mr_player_uuid row) scoreRows) ds_mistakes,
              e_date = map_option ds_date
                (find (\<lambda>s. ds_player_uuid s = mr_player_uuid row) scoreRows)\<rparr> k
            \<in> set (lr_leaderboard res)
        \<and> (k = None) = (Option.bind
                (find (\<lambda>s. ds_player_uuid s = mr_player_uuid row) scoreRows) ds_mistakes = None)))"
proof (intro conjI impI)
  assume a: "leagues db id' = Some l \<and> mb \<in> set (memberships db) \<and> m_leagueId mb = id'
      \<and> players db (m_playerUuid mb) = None"
  define date where "date = (if is_falsy queryDate then today else the queryDate)"
  define res where "res = \<lparr>lr_league = l, lr_date = date,
      lr_leaderboard = assign_ranks (sort_members localeCompare (build_members db id' date))\<rparr>"
  define e where "e = \<lparr>e_uuid = m_playerUuid mb, e_display_name = ''Unknown'',
      e_mistakes = Option.bind
        (find (\<lambda>s. s_playerUuid s = m_playerUuid mb)
           (filter (\<lambda>s. s_leagueId s = id' \<and> s_date s = date) (scores db))) s_mistakes,
      e_date = map_option s_date
        (find (\<lambda>s. s_playerUuid s = m_playerUuid mb)
           (filter (\<lambda>s. s_leagueId s = id' \<and> s_date s = date) (scores db)))\<rparr>"
  have r: "computeLeaderboard localeCompare today id' queryDate db = Inr res"
    using a by (simp add: computeLeaderboard_def Let_def res_def date_def assign_ranks_flat_eq)
  have len: "length (lr_leaderboard res) = length (filter (\<lambda>m. m_leagueId m = id') (memberships db))"
    by (simp add: res_def length_leaderboard build_members_def Let_def)
  have "m_playerUuid mb \<in> set (map m_playerUuid (filter (\<lambda>m. m_leagueId m = id') (memberships db)))"
    using a by auto
  then have "e \<in> set (build_members db id' date)"
    using a by (auto simp: build_members_def Let_def e_def name_or_unknown_def is_falsy_def image_iff)
  then have "\<exists>k. with_rank e k \<in> set (lr_leaderboard res) \<and> (k = None) = (e_mistakes e = None)"
    using leaderboard_has_member [of e _ localeCompare] by (simp add: res_def)
  then obtain k where "with_rank e k \<in> set (lr_leaderboard res)" "(k = None) = (e_mistakes e = None)"
    by (elim exE conjE)
  then show "\<exists>res k. computeLeaderboard localeCompare today id' queryDate db = Inr res
        \<and> length (lr_leaderboard res) = length (filter (\<lambda>m. m_leagueId m = id') (memberships db))
        \<and> with_rank
             \<lparr>e_uuid = m_playerUuid mb, e_display_name = ''Unknown'',
              e_mistakes = Option.bind
                (find (\<lambda>s. s_playerUuid s = m_playerUuid mb)
                   (filter (\<lambda>s. s_leagueId s = id' \<and> s_date s = lr_date res) (scores db)))
                s_mistakes,
              e_date = map_option s_date
                (find (\<lambda>s. s_playerUuid s = m_playerUuid mb)
                   (filter (\<lambda>s. s_leagueId s = id' \<and> s_date s = lr_date res) (scores db)))\<rparr> k
            \<in> set (lr_leaderboard res)
        \<and> (k = None) = (Option.bind
                (find (\<lambda>s. s_playerUuid s = m_playerUuid mb)
                   (filter (\<lambda>s. s_leagueId s = id' \<and> s_date s = lr_date res) (scores db)))
                s_mistakes = None)"
    using r len by (intro exI [of _ res] exI [of _ k]) (simp add: e_def res_def)
next
  assume a: "row \<in> set membershipRows \<and> mr_players row = None"
  define date where "date = (if is_falsy queryDate then today else the queryDate)"
  define res where "res = \<lparr>lr_league = l, lr_date = date,
      lr_leaderboard = assign_ranks (sort_members localeCompare
        (build_members_svc membershipRows scoreRows))\<rparr>"
  define e where "e = \<lparr>e_uuid = mr_player_uuid row, e_display_name = ''Unknown'',
      e_mistakes = Option.bind
        (find (\<lambda>s. ds_player_uuid s = mr_player_uuid row) scoreRows) ds_mistakes,
      e_date = map_option ds_date
        (find (\<lambda>s. ds_player_uuid s = mr_player_uuid row) scoreRows)\<rparr>"
  have r: "computeLeaderboard_svc localeCompare today queryDate (Some l)
      (Some membershipRows) (Some scoreRows) = Inr res"
    by (simp add: computeLeaderboard_svc_def Let_def res_def date_def or_empty_def)
  have len: "length (lr_leaderboard res) = length membershipRows"
    by (simp add: res_def length_leaderboard build_members_svc_def)
  have "e \<in> set (build_members_svc membershipRows scoreRows)"
    using a by (auto simp: build_members_svc_def Let_def e_def name_or_unknown_def is_falsy_def image_iff)
  then have "\<exists>k. with_rank e k \<in> set (lr_leaderboard res) \<and> (k = None) = (e_mistakes e = None)"
    using leaderboard_has_member [of e _ localeCompare] by (simp add: res_def)
  then obtain k where "with_rank e k \<in> set (lr_leaderboard res)" "(k = None) = (e_mistakes e = None)"
    by (elim exE conjE)
  then show "\<exists>res k. computeLeaderboard_svc localeCompare today queryDate (Some l)
                  (Some membershipRows) (Some scoreRows) = Inr res
        \<and> length (lr_leaderboard res) = length membershipRows
        \<and> with_rank
             \<lparr>e_uuid = mr_player_uuid row, e_display_name = ''Unknown'',
              e_mistakes = Option.bind
                (find (\<lambda>s. ds_player_uuid s = mr_player_uuid row) scoreRows) ds_mistakes,
              e_date = map_option ds_date
                (find (\<lambda>s. ds_player_uuid s = mr_player_uuid row) scoreRows)\<rparr> k
            \<in> set (lr_leaderboard res)
        \<and> (k = None) = (Option.bind
                (find (\<lambda>s. ds_player_uuid s = mr_player_uuid row) scoreRows) ds_mistakes = None)"
    using r len by (intro exI [of _ res] exI [of _ k]) (simp add: e_def)
qed

lemma orphan_eval:
  "computeLeaderboard_svc codepoint_compare ''2024-01-05'' None (Some scenario_league)
     (Some orphan_members) (Some orphan_scores)
   = Inr \<lparr>lr_league = scenario_league, lr_date = ''2024-01-05'',
          lr_leaderboard =
            [\<lparr>r_uuid = ''u-lost'', r_display_name = ''Unknown'', r_mistakes = Some 1,
              r_date = Some ''2024-01-05'', r_rank = Some 1\<rparr>,
             \<lparr>r_uuid = ''u-bob'', r_display_name = ''Bob'', r_mistakes = Some 2,
              r_date = Some ''2024-01-05'', r_rank = Some 2\<rparr>]\<rparr>"
  by (simp add: computeLeaderboard_svc_def build_members_svc_def sort_members_def array_sort_def
      compare_members_def assign_ranks_def with_rank_def name_or_unknown_def is_falsy_def
      or_empty_def orphan_members_def orphan_scores_def)

theorem member_without_player_is_unknown_witness:
  "computeLeaderboard_svc codepoint_compare ''2024-01-05'' None (Some scenario_league)
     (Some orphan_members) (Some orphan_scores)
   = Inr \<lparr>lr_league = scenario_league, lr_date = ''2024-01-05'',
          lr_leaderboard =
            [\<lparr>r_uuid = ''u-lost'', r_display_name = ''Unknown'', r_mistakes = Some 1,
              r_date = Some ''2024-01-05'', r_rank = Some 1\<rparr>,
             \<lparr>r_uuid = ''u-bob'', r_display_name = ''Bob'', r_mistakes = Some 2,
              r_date = Some ''2024-01-05'', r_rank = Some 2\<rparr>]\<rparr>
   \<and> (\<exists>res k. computeLeaderboard_svc codepoint_compare ''2024-01-05'' None (Some scenario_league)
                  (Some orphan_members) (Some orphan_scores) = Inr res
        \<and> length (lr_leaderboard res) = length orphan_members
        \<and> with_rank \<lparr>e_uuid = ''u-lost'', e_display_name = ''Unknown'', e_mistakes = Some 1,
                       e_date = Some ''2024-01-05''\<rparr> k \<in> set (lr_leaderboard res)
        \<and> k \<noteq> None)"
proof -
  let ?row = "\<lparr>mr_player_uuid = ''u-lost'', mr_players = None\<rparr>"
  have h: "?row \<in> set orphan_members \<and> mr_players ?row = None"
    by (simp add: orphan_members_def)
  have "\<exists>res k. computeLeaderboard_svc codepoint_compare ''2024-01-05'' None (Some scenario_league)
                  (Some orphan_members) (Some orphan_scores) = Inr res
        \<and> length (lr_leaderboard res) = length orphan_members
        \<and> with_rank
             \<lparr>e_uuid = mr_player_uuid ?row, e_display_name = ''Unknown'',
              e_mistakes = Option.bind
                (find (\<lambda>s. ds_player_uuid s = mr_player_uuid ?row) orphan_scores) ds_mistakes,
              e_date = map_option ds_date
                (find (\<lambda>s. ds_player_uuid s = mr_player_uuid ?row) orphan_scores)\<rparr> k
            \<in> set (lr_leaderboard res)
        \<and> (k = None) = (Option.bind
                (find (\<lambda>s. ds_player_uuid s = mr_player_uuid ?row) orphan_scores) ds_mistakes = None)"
    using member_without_player_is_unknown [THEN conjunct2, rule_format, OF h] .
  then have "\<exists>res k. computeLeaderboard_svc codepoint_compare ''2024-01-05'' None (Some scenario_league)
                  (Some orphan_members) (Some orphan_scores) = Inr res
        \<and> length (lr_leaderboard res) = length orphan_members
        \<and> with_rank \<lparr>e_uuid = ''u-lost'', e_display_name = ''Unknown'', e_mistakes = Some 1,
                       e_date = Some ''2024-01-05''\<rparr> k \<in> set (lr_leaderboard res)
        \<and> k \<noteq> None"
    by (simp add: orphan_scores_def)
  then show ?thesis using orphan_eval by (intro conjI)
qed

end
